theory Spec2Isabelle
  imports Complex_Main
begin

section \<open>The MapR-DB session patch (pyspark/sql/maprpatch.py)\<close>

text \<open>
  The module holds one function, \<open>mapr_session_patch\<close>, which resolves the connector class
  through the py4j gateway, builds one native connector object and assigns three inner
  functions to attributes of the session it was given. Every piece of real work is a call
  into code outside the module (py4j, the JVM connector, the pyspark reader and data frame
  classes). The embedding therefore keeps two things explicit: the ordered list of such
  calls, and the variables of the enclosing activation that the inner functions read.
\<close>

subsection \<open>Values\<close>

text \<open>
  \<open>'v\<close> is the type of references to objects the module never looks into (JVM objects,
  readers, the gateway, the wrapped context), \<open>'e\<close> the type of exceptions raised outside the
  module. A sample size is a Python number; the float \<open>1000.0\<close> is the number it denotes.
\<close>

datatype number = PyInt int | PyFloat real

datatype optval = OptStr string | OptNum number | OptBool bool

text \<open>A schema argument is a DDL string or a \<open>StructType\<close> object.\<close>

datatype 'v schema = DDLString string | StructType 'v

text \<open>What a Python call evaluates to: \<open>None\<close> or an object.\<close>

datatype 'v pyval = PyNone | PyObj 'v

text \<open>Of a data frame argument the module reads the attribute \<open>_jdf\<close> only.\<close>

record 'v dataframe =
  jdf :: 'v

subsection \<open>Calls that leave the module\<close>

text \<open>
  One constructor per call site of the source; the first argument of a method call is its
  receiver.
  \<^item> \<open>JavaImport gw c\<close>: \<open>java_import(gw.jvm, c)\<close>
  \<^item> \<open>NewMapRDBJavaSession gw js\<close>: \<open>gw.jvm.MapRDBJavaSession(js)\<close>
  \<^item> \<open>SessionRead s\<close>: \<open>s.read\<close>
  \<^item> \<open>ReaderFormat r f\<close>, \<open>ReaderOption r k x\<close>, \<open>ReaderSchema r s\<close>, \<open>ReaderLoad r\<close>:
    \<open>r.format(f)\<close>, \<open>r.option(k, x)\<close>, \<open>r.schema(s)\<close>, \<open>r.load()\<close>
  \<^item> \<open>JSetBufferWrites j b\<close>: \<open>j.setBufferWrites(b)\<close>
  \<^item> \<open>JSaveToMapRDB j d t i c b\<close>, \<open>JInsertToMapRDB j d t i c b\<close>:
    \<open>j.saveToMapRDB(d, t, i, c, b)\<close>, \<open>j.insertToMapRDB(d, t, i, c, b)\<close>
  \<^item> \<open>NewDataFrame d w\<close>: \<open>DataFrame(d, w)\<close>
\<close>

datatype 'v call =
    JavaImport 'v string
  | NewMapRDBJavaSession 'v 'v
  | SessionRead 'v
  | ReaderFormat 'v string
  | ReaderOption 'v string optval
  | ReaderSchema 'v "'v schema"
  | ReaderLoad 'v
  | JSetBufferWrites 'v bool
  | JSaveToMapRDB 'v 'v string string bool bool
  | JInsertToMapRDB 'v 'v string string bool bool
  | NewDataFrame 'v 'v

text \<open>
  The outside world is a parameter: \<open>respond\<close> gives, for the calls made so far and the
  call made now, either the exception it raises or the object it returns; it may depend on
  the whole history, so it covers any state the connector keeps. \<open>struct_truthy\<close> is the
  truth value Python gives a \<open>StructType\<close> object (decided by that class, outside the module).
\<close>

record ('e, 'v) bridge =
  respond :: "'v call list \<Rightarrow> 'v call \<Rightarrow> 'e + 'v"
  struct_truthy :: "'v \<Rightarrow> bool"

text \<open>The test \<open>if schema:\<close> on a schema that is not \<open>None\<close>: a string is true when not empty.\<close>

fun truthy :: "('e, 'v) bridge \<Rightarrow> 'v schema \<Rightarrow> bool" where
  "truthy br (DDLString s) = (s \<noteq> [])"
| "truthy br (StructType x) = struct_truthy br x"

subsection \<open>The enclosing activation and the session object\<close>

text \<open>
  The local variables of one activation of \<open>mapr_session_patch\<close> that its inner functions
  use: the parameters (after defaulting) and \<open>mapr_j_session\<close>.
\<close>

record 'v scope =
  original_session :: 'v
  wrapped :: 'v
  default_sample_size :: number
  default_id_field :: string
  buffer_writes :: bool
  mapr_j_session :: 'v

text \<open>The three function objects the activation creates, each closed over its scope.\<close>

datatype fname = LoadFromMapRDB | SaveToMapRDB | InsertToMapRDB

datatype 'v attr = Function fname "'v scope" | Other 'v

text \<open>
  A session object: its identity, the attribute \<open>_jsparkSession\<close>, and the rest of its
  attribute dictionary.
\<close>

record 'v session =
  session_ref :: 'v
  jsparkSession :: 'v
  attrs :: "string \<rightharpoonup> 'v attr"

text \<open>
  What an inner function runs on: the variables of the enclosing activation and the calls
  made so far.
\<close>

record 'v state =
  cells :: "'v scope"
  trace :: "'v call list"

subsection \<open>Sequencing\<close>

text \<open>
  \<open>invoke\<close> makes one outside call; its arguments are computed from the variables as they
  are at that moment. \<open>and_then\<close> is Python's statement order with no \<open>try\<close> around it: an
  exception ends the function.
\<close>

definition invoke ::
    "('e, 'v) bridge \<Rightarrow> ('v scope \<Rightarrow> 'v call) \<Rightarrow> 'v state \<Rightarrow> ('e + 'v) \<times> 'v state" where
  "invoke br c st =
     (respond br (trace st) (c (cells st)), st\<lparr>trace := trace st @ [c (cells st)]\<rparr>)"

definition and_then ::
    "('s \<Rightarrow> ('e + 'a) \<times> 's) \<Rightarrow> ('a \<Rightarrow> 's \<Rightarrow> ('e + 'b) \<times> 's) \<Rightarrow> 's \<Rightarrow> ('e + 'b) \<times> 's" where
  "and_then m f s = (case m s of (Inl e, s') \<Rightarrow> (Inl e, s') | (Inr a, s') \<Rightarrow> f a s')"

definition return :: "'a \<Rightarrow> 's \<Rightarrow> ('e + 'a) \<times> 's" where
  "return a s = (Inr a, s)"

subsection \<open>The inner functions\<close>

text \<open>
  \<^verbatim>\<open>def set_buffer_writes(bw): buffer_writes=bw\<close>
  The body has no \<open>nonlocal\<close> declaration, so the assignment binds a variable of the call's
  own frame, which ends with the call.
\<close>

definition set_buffer_writes :: "bool \<Rightarrow> 'v state \<Rightarrow> ('e + 'v pyval) \<times> 'v state" where
  "set_buffer_writes bw st = (let local_buffer_writes = bw in (Inr PyNone, st))"

text \<open>
  The three attached functions. A parameter default such as \<open>sample_size=default_sample_size\<close>
  is evaluated once, when the \<open>def\<close> statement runs, from the variables of the activation;
  the optional arguments are \<open>None\<close> here when the caller leaves them out. Each function reads
  \<open>buffer_writes\<close>, \<open>mapr_j_session\<close>, \<open>wrapped\<close> and \<open>original_session\<close> when it runs. Save and
  insert end without a \<open>return\<close> statement, so they evaluate to \<open>None\<close>.
\<close>

definition loadFromMapRDB ::
    "('e, 'v) bridge \<Rightarrow> string \<Rightarrow> 'v schema option \<Rightarrow> number option \<Rightarrow> 'v state
      \<Rightarrow> ('e + 'v pyval) \<times> 'v state" where
  "loadFromMapRDB br table_name schema sample_size st =
     (let n = (case sample_size of None \<Rightarrow> default_sample_size (cells st) | Some k \<Rightarrow> k) in
      and_then (invoke br (\<lambda>c. SessionRead (original_session c))) (\<lambda>r0.
      and_then (invoke br (\<lambda>c. ReaderFormat r0 ''com.mapr.db.spark.sql'')) (\<lambda>r1.
      and_then (invoke br (\<lambda>c. ReaderOption r1 ''tableName'' (OptStr table_name))) (\<lambda>r2.
      and_then (invoke br (\<lambda>c. ReaderOption r2 ''sampleSize'' (OptNum n))) (\<lambda>r3.
      and_then (invoke br (\<lambda>c. ReaderOption r3 ''bufferWrites'' (OptBool (buffer_writes c))))
        (\<lambda>df_reader.
      and_then (case schema of
                  None \<Rightarrow> return df_reader
                | Some s \<Rightarrow> if truthy br s then invoke br (\<lambda>c. ReaderSchema df_reader s)
                            else return df_reader) (\<lambda>_.
      and_then (invoke br (\<lambda>c. ReaderLoad df_reader)) (\<lambda>df.
      return (PyObj df)))))))) st)"

definition saveToMapRDB ::
    "('e, 'v) bridge \<Rightarrow> 'v dataframe \<Rightarrow> string \<Rightarrow> string option \<Rightarrow> bool option \<Rightarrow> bool option
      \<Rightarrow> 'v state \<Rightarrow> ('e + 'v pyval) \<times> 'v state" where
  "saveToMapRDB br dataframe table_name id_field_path create_table bulk_insert st =
     (let i = (case id_field_path of None \<Rightarrow> default_id_field (cells st) | Some p \<Rightarrow> p);
          ct = (case create_table of None \<Rightarrow> False | Some b \<Rightarrow> b);
          bi = (case bulk_insert of None \<Rightarrow> False | Some b \<Rightarrow> b) in
      and_then (invoke br (\<lambda>c. JSetBufferWrites (mapr_j_session c) (buffer_writes c))) (\<lambda>_.
      and_then (invoke br (\<lambda>c. JSaveToMapRDB (mapr_j_session c) (jdf dataframe) table_name i ct bi))
        (\<lambda>r.
      and_then (invoke br (\<lambda>c. NewDataFrame r (wrapped c))) (\<lambda>_.
      return PyNone))) st)"

definition insertToMapRDB ::
    "('e, 'v) bridge \<Rightarrow> 'v dataframe \<Rightarrow> string \<Rightarrow> string option \<Rightarrow> bool option \<Rightarrow> bool option
      \<Rightarrow> 'v state \<Rightarrow> ('e + 'v pyval) \<times> 'v state" where
  "insertToMapRDB br dataframe table_name id_field_path create_table bulk_insert st =
     (let i = (case id_field_path of None \<Rightarrow> default_id_field (cells st) | Some p \<Rightarrow> p);
          ct = (case create_table of None \<Rightarrow> False | Some b \<Rightarrow> b);
          bi = (case bulk_insert of None \<Rightarrow> False | Some b \<Rightarrow> b) in
      and_then (invoke br (\<lambda>c. JSetBufferWrites (mapr_j_session c) (buffer_writes c))) (\<lambda>_.
      and_then (invoke br (\<lambda>c. JInsertToMapRDB (mapr_j_session c) (jdf dataframe) table_name i ct bi))
        (\<lambda>r.
      and_then (invoke br (\<lambda>c. NewDataFrame r (wrapped c))) (\<lambda>_.
      return PyNone))) st)"

subsection \<open>Construction\<close>

text \<open>
  \<open>mapr_session_patch(original_session, wrapped, gw, default_sample_size=1000.0,
  default_id_field="_id", buffer_writes=True)\<close>: the three optional parameters are \<open>None\<close>
  when the caller leaves them out. The session is changed in place, so the model gives it
  back also when an exception ends the function; the attributes are assigned in the
  source's order, after both outside calls.
\<close>

definition connector_class :: string where
  "connector_class = ''com.mapr.db.spark.sql.api.java.MapRDBJavaSession''"

definition new_scope ::
    "'v session \<Rightarrow> 'v \<Rightarrow> number option \<Rightarrow> string option \<Rightarrow> bool option \<Rightarrow> 'v \<Rightarrow> 'v scope" where
  "new_scope os w dss dif bw j =
     \<lparr>original_session = session_ref os, wrapped = w,
      default_sample_size = (case dss of None \<Rightarrow> PyFloat 1000 | Some n \<Rightarrow> n),
      default_id_field = (case dif of None \<Rightarrow> ''_id'' | Some f \<Rightarrow> f),
      buffer_writes = (case bw of None \<Rightarrow> True | Some b \<Rightarrow> b),
      mapr_j_session = j\<rparr>"

definition setattr :: "'v session \<Rightarrow> string \<Rightarrow> 'v attr \<Rightarrow> 'v session" where
  "setattr os name x = os\<lparr>attrs := (attrs os)(name \<mapsto> x)\<rparr>"

definition mapr_session_patch ::
    "('e, 'v) bridge \<Rightarrow> 'v session \<Rightarrow> 'v \<Rightarrow> 'v \<Rightarrow> number option \<Rightarrow> string option \<Rightarrow> bool option
      \<Rightarrow> 'v call list \<Rightarrow> ('e + 'v pyval) \<times> 'v session \<times> 'v call list" where
  "mapr_session_patch br os w gw dss dif bw t =
     (let imp = JavaImport gw connector_class;
          new = NewMapRDBJavaSession gw (jsparkSession os) in
      case respond br t imp of
        Inl e \<Rightarrow> (Inl e, os, t @ [imp])
      | Inr _ \<Rightarrow>
         (case respond br (t @ [imp]) new of
            Inl e \<Rightarrow> (Inl e, os, t @ [imp, new])
          | Inr j \<Rightarrow>
             (let sc = new_scope os w dss dif bw j;
                  os1 = setattr os ''loadFromMapRDB'' (Function LoadFromMapRDB sc);
                  os2 = setattr os1 ''saveToMapRDB'' (Function SaveToMapRDB sc);
                  os3 = setattr os2 ''insertToMapRDB'' (Function InsertToMapRDB sc)
              in (Inr PyNone, os3, t @ [imp, new]))))"

subsection \<open>Reading a run\<close>

text \<open>The calls a run added to the history.\<close>

definition new_calls :: "'v state \<Rightarrow> 'v state \<Rightarrow> 'v call list" where
  "new_calls st st' = drop (length (trace st)) (trace st')"

text \<open>
  \<open>propagates br t cs r\<close> replays the calls \<open>cs\<close>, made in this order from history \<open>t\<close>, and
  compares them with the outcome \<open>r\<close> of the function that made them: a call that raises is
  the last one made and its exception is the outcome, unchanged; when every call returns,
  the outcome is a normal return.
\<close>

fun propagates :: "('e, 'v) bridge \<Rightarrow> 'v call list \<Rightarrow> 'v call list \<Rightarrow> 'e + 'a \<Rightarrow> bool" where
  "propagates br t [] r = (case r of Inl e \<Rightarrow> False | Inr x \<Rightarrow> True)"
| "propagates br t (c # cs) r =
     (case respond br t c of
        Inl e \<Rightarrow> cs = [] \<and> r = Inl e
      | Inr x \<Rightarrow> propagates br (t @ [c]) cs r)"

text \<open>
  A run from \<open>st\<close> with outcome and final state \<open>out\<close> is \<open>well_behaved\<close> when it left the
  variables of the enclosing activation alone, only appended calls satisfying \<open>P\<close> to the
  history, and its outcome is the one \<open>propagates\<close> describes. A state function is
  \<open>faithful\<close> when every run of it is.
\<close>

definition well_behaved ::
    "('e, 'v) bridge \<Rightarrow> ('v scope \<Rightarrow> 'v call \<Rightarrow> bool) \<Rightarrow> 'v state \<Rightarrow> ('e + 'a) \<times> 'v state \<Rightarrow> bool" where
  "well_behaved br P st out =
     (cells (snd out) = cells st \<and>
      (\<exists>cs. trace (snd out) = trace st @ cs \<and> list_all (P (cells st)) cs \<and>
            propagates br (trace st) cs (fst out)))"

definition faithful ::
    "('e, 'v) bridge \<Rightarrow> ('v scope \<Rightarrow> 'v call \<Rightarrow> bool) \<Rightarrow> ('v state \<Rightarrow> ('e + 'a) \<times> 'v state) \<Rightarrow> bool" where
  "faithful br P m = (\<forall>st. well_behaved br P st (m st))"

text \<open>The write-buffering values a list of calls hands to the outside.\<close>

fun buffering_values :: "'v call list \<Rightarrow> optval list" where
  "buffering_values [] = []"
| "buffering_values (JSetBufferWrites j b # cs) = OptBool b # buffering_values cs"
| "buffering_values (ReaderOption r k x # cs) =
     (if k = ''bufferWrites'' then x # buffering_values cs else buffering_values cs)"
| "buffering_values (c # cs) = buffering_values cs"

definition uses_flag :: "'v scope \<Rightarrow> 'v call \<Rightarrow> bool" where
  "uses_flag sc c = list_all (\<lambda>x. x = OptBool (buffer_writes sc)) (buffering_values [c])"

subsection \<open>Save and insert side by side\<close>

text \<open>Exchanging the two native write operations, in a call and in what the outside sees.\<close>

fun swap_call :: "'v call \<Rightarrow> 'v call" where
  "swap_call (JSaveToMapRDB j d t i c b) = JInsertToMapRDB j d t i c b"
| "swap_call (JInsertToMapRDB j d t i c b) = JSaveToMapRDB j d t i c b"
| "swap_call c = c"

definition swap_bridge :: "('e, 'v) bridge \<Rightarrow> ('e, 'v) bridge" where
  "swap_bridge br = br\<lparr>respond := \<lambda>t c. respond br (map swap_call t) (swap_call c)\<rparr>"

definition swap_state :: "'v state \<Rightarrow> 'v state" where
  "swap_state st = st\<lparr>trace := map swap_call (trace st)\<rparr>"

subsection \<open>Sequences of operations on one adapter\<close>

text \<open>
  Everything code holding the inner functions of one activation can do with them: call one
  of the three attached functions, or (were it reachable) \<open>set_buffer_writes\<close>.
\<close>

datatype 'v op =
    OpLoad string "'v schema option" "number option"
  | OpSave "'v dataframe" string "string option" "bool option" "bool option"
  | OpInsert "'v dataframe" string "string option" "bool option" "bool option"
  | OpSetBufferWrites bool

fun step :: "('e, 'v) bridge \<Rightarrow> 'v op \<Rightarrow> 'v state \<Rightarrow> ('e + 'v pyval) \<times> 'v state" where
  "step br (OpLoad t s n) st = loadFromMapRDB br t s n st"
| "step br (OpSave d t i c b) st = saveToMapRDB br d t i c b st"
| "step br (OpInsert d t i c b) st = insertToMapRDB br d t i c b st"
| "step br (OpSetBufferWrites b) st = set_buffer_writes b st"

text \<open>The caller goes on after an exception (it may catch it), so the run does too.\<close>

fun run :: "('e, 'v) bridge \<Rightarrow> 'v op list \<Rightarrow> 'v state \<Rightarrow> 'v state" where
  "run br [] st = st"
| "run br (x # xs) st = run br xs (snd (step br x st))"

subsection \<open>A concrete outside world\<close>

text \<open>
  Every call returns a fresh object, numbered from 10 by its position in the history;
  \<open>refusing_bridge\<close> is the same world with a connector that rejects every write.
\<close>

definition echo_bridge :: "(string, nat) bridge" where
  "echo_bridge = \<lparr>respond = (\<lambda>t c. Inr (10 + length t)), struct_truthy = (\<lambda>x. True)\<rparr>"

fun refuse :: "nat call list \<Rightarrow> nat call \<Rightarrow> string + nat" where
  "refuse t (JSaveToMapRDB j d tn i c b) = Inl ''write failed''"
| "refuse t (JInsertToMapRDB j d tn i c b) = Inl ''write failed''"
| "refuse t c = Inr (10 + length t)"

definition refusing_bridge :: "(string, nat) bridge" where
  "refusing_bridge = \<lparr>respond = refuse, struct_truthy = (\<lambda>x. True)\<rparr>"

definition demo_session :: "nat session" where
  "demo_session = \<lparr>session_ref = 1, jsparkSession = 2, attrs = [''version'' \<mapsto> Other 5]\<rparr>"

definition demo_scope :: "nat scope" where
  "demo_scope = new_scope demo_session 3 None None None 11"

text \<open>The state right after a construction with every optional parameter left out.\<close>

definition demo_state :: "nat state" where
  "demo_state =
     \<lparr>cells = demo_scope,
      trace = [JavaImport 4 connector_class, NewMapRDBJavaSession 4 2]\<rparr>"

definition demo_df :: "nat dataframe" where
  "demo_df = \<lparr>jdf = 7\<rparr>"

text \<open>The demo session after that construction.\<close>

definition demo_patched :: "nat session" where
  "demo_patched = fst (snd (mapr_session_patch echo_bridge demo_session 3 4 None None None []))"

section \<open>Properties\<close>

subsection \<open>Unfolding and evaluation\<close>

lemmas run_defs =
  loadFromMapRDB_def saveToMapRDB_def insertToMapRDB_def set_buffer_writes_def
  and_then_def invoke_def return_def new_calls_def Let_def

lemmas demo_defs =
  echo_bridge_def refusing_bridge_def demo_state_def demo_scope_def demo_session_def
  demo_df_def new_scope_def connector_class_def

subsection \<open>Runs compose\<close>

lemma propagates_append:
  "propagates br t cs1 (Inr a) \<Longrightarrow> propagates br (t @ cs1) cs2 r \<Longrightarrow> propagates br t (cs1 @ cs2) r"
proof (induction cs1 arbitrary: t)
  case Nil
  then show ?case by simp
next
  case (Cons c cs1)
  then show ?case by (cases "respond br t c") auto
qed

lemma propagates_error:
  "propagates br t cs (Inl e :: 'e + 'a) \<Longrightarrow> propagates br t cs (Inl e :: 'e + 'b)"
  by (induction cs arbitrary: t) (auto split: sum.splits)

lemma faithful_invoke:
  assumes "\<And>sc. P sc (c sc)"
  shows "faithful br P (invoke br c)"
  unfolding faithful_def well_behaved_def invoke_def using assms
  by (auto split: sum.splits intro!: exI[of _ "[c (cells st)]" for st])

lemma faithful_return: "faithful br P (return x)"
  unfolding faithful_def well_behaved_def return_def by simp

lemma faithful_and_then:
  assumes m: "faithful br P m" and f: "\<And>a. faithful br P (f a)"
  shows "faithful br P (and_then m f)"
  unfolding faithful_def well_behaved_def
proof
  fix st
  from m obtain cs1 where c1: "cells (snd (m st)) = cells st"
    and t1: "trace (snd (m st)) = trace st @ cs1" and p1: "list_all (P (cells st)) cs1"
    and r1: "propagates br (trace st) cs1 (fst (m st))"
    unfolding faithful_def well_behaved_def by blast
  show "cells (snd (and_then m f st)) = cells st \<and>
        (\<exists>cs. trace (snd (and_then m f st)) = trace st @ cs \<and> list_all (P (cells st)) cs \<and>
              propagates br (trace st) cs (fst (and_then m f st)))"
  proof (cases "fst (m st)")
    case (Inl e)
    then have eq: "and_then m f st = (Inl e, snd (m st))"
      by (cases "m st") (simp add: and_then_def)
    from r1 Inl have "propagates br (trace st) cs1 (fst (and_then m f st))"
      unfolding eq fst_conv by (auto intro: propagates_error)
    with c1 t1 p1 eq show ?thesis by auto
  next
    case (Inr a)
    then have eq: "and_then m f st = f a (snd (m st))"
      by (cases "m st") (simp add: and_then_def)
    from f[of a] obtain cs2 where c2: "cells (snd (f a (snd (m st)))) = cells (snd (m st))"
      and t2: "trace (snd (f a (snd (m st)))) = trace (snd (m st)) @ cs2"
      and p2: "list_all (P (cells (snd (m st)))) cs2"
      and r2: "propagates br (trace (snd (m st))) cs2 (fst (f a (snd (m st))))"
      unfolding faithful_def well_behaved_def by blast
    from r1 Inr r2 t1 have "propagates br (trace st) (cs1 @ cs2) (fst (f a (snd (m st))))"
      by (simp add: propagates_append)
    with c1 c2 t1 t2 p1 p2 eq show ?thesis by auto
  qed
qed


lemma uses_flag_simps:
  "uses_flag sc (SessionRead s)"
  "uses_flag sc (ReaderFormat r f)"
  "uses_flag sc (ReaderOption r ''tableName'' x)"
  "uses_flag sc (ReaderOption r ''sampleSize'' x)"
  "uses_flag sc (ReaderOption r ''bufferWrites'' (OptBool (buffer_writes sc)))"
  "uses_flag sc (ReaderSchema r s')"
  "uses_flag sc (ReaderLoad r)"
  "uses_flag sc (JSetBufferWrites j (buffer_writes sc))"
  "uses_flag sc (JSaveToMapRDB j d t i c b)"
  "uses_flag sc (JInsertToMapRDB j d t i c b)"
  "uses_flag sc (NewDataFrame d w)"
  by (simp_all add: uses_flag_def)

lemma faithful_load:
  "faithful br uses_flag
     (and_then (invoke br (\<lambda>c. SessionRead (original_session c))) (\<lambda>r0.
      and_then (invoke br (\<lambda>c. ReaderFormat r0 ''com.mapr.db.spark.sql'')) (\<lambda>r1.
      and_then (invoke br (\<lambda>c. ReaderOption r1 ''tableName'' (OptStr table_name))) (\<lambda>r2.
      and_then (invoke br (\<lambda>c. ReaderOption r2 ''sampleSize'' (OptNum n))) (\<lambda>r3.
      and_then (invoke br (\<lambda>c. ReaderOption r3 ''bufferWrites'' (OptBool (buffer_writes c))))
        (\<lambda>df_reader.
      and_then (case schema of
                  None \<Rightarrow> return df_reader
                | Some s \<Rightarrow> if truthy br s then invoke br (\<lambda>c. ReaderSchema df_reader s)
                            else return df_reader) (\<lambda>_.
      and_then (invoke br (\<lambda>c. ReaderLoad df_reader)) (\<lambda>df.
      return (PyObj df)))))))))"
  by (intro faithful_and_then faithful_invoke faithful_return uses_flag_simps)
     (auto split: option.splits intro!: faithful_invoke faithful_return uses_flag_simps)

lemma faithful_save:
  "faithful br uses_flag
     (and_then (invoke br (\<lambda>c. JSetBufferWrites (mapr_j_session c) (buffer_writes c))) (\<lambda>_.
      and_then (invoke br (\<lambda>c. JSaveToMapRDB (mapr_j_session c) d t i ct bi)) (\<lambda>r.
      and_then (invoke br (\<lambda>c. NewDataFrame r (wrapped c))) (\<lambda>_.
      return PyNone))))"
  by (intro faithful_and_then faithful_invoke faithful_return uses_flag_simps)

lemma faithful_insert:
  "faithful br uses_flag
     (and_then (invoke br (\<lambda>c. JSetBufferWrites (mapr_j_session c) (buffer_writes c))) (\<lambda>_.
      and_then (invoke br (\<lambda>c. JInsertToMapRDB (mapr_j_session c) d t i ct bi)) (\<lambda>r.
      and_then (invoke br (\<lambda>c. NewDataFrame r (wrapped c))) (\<lambda>_.
      return PyNone))))"
  by (intro faithful_and_then faithful_invoke faithful_return uses_flag_simps)

lemma well_behaved_set_buffer_writes: "well_behaved br P st (set_buffer_writes b st)"
  unfolding well_behaved_def set_buffer_writes_def by simp

lemma well_behaved_load: "well_behaved br uses_flag st (loadFromMapRDB br t s n st)"
  unfolding loadFromMapRDB_def Let_def by (rule faithful_load[unfolded faithful_def, rule_format])

lemma well_behaved_save: "well_behaved br uses_flag st (saveToMapRDB br d t i c b st)"
  unfolding saveToMapRDB_def Let_def by (rule faithful_save[unfolded faithful_def, rule_format])

lemma well_behaved_insert: "well_behaved br uses_flag st (insertToMapRDB br d t i c b st)"
  unfolding insertToMapRDB_def Let_def by (rule faithful_insert[unfolded faithful_def, rule_format])

lemma well_behaved_step: "well_behaved br uses_flag st (step br x st)"
  by (cases x)
     (simp_all add: well_behaved_load well_behaved_save well_behaved_insert
        well_behaved_set_buffer_writes)

lemma buffering_values_Cons:
  "buffering_values (c # cs) = buffering_values [c] @ buffering_values cs"
  by (cases c) simp_all

lemma buffering_values_append:
  "buffering_values (cs @ ds) = buffering_values cs @ buffering_values ds"
proof (induction cs)
  case Nil
  show ?case by simp
next
  case (Cons c cs)
  then show ?case
    using buffering_values_Cons[of c "cs @ ds"] buffering_values_Cons[of c cs] by simp
qed

lemma uses_flag_values:
  "list_all (uses_flag sc) cs \<Longrightarrow>
     list_all (\<lambda>x. x = OptBool (buffer_writes sc)) (buffering_values cs)"
proof (induction cs)
  case Nil
  show ?case by simp
next
  case (Cons c cs)
  then show ?case
    using buffering_values_Cons[of c cs] by (simp add: uses_flag_def)
qed

lemma run_invariant:
  "cells (run br ops st) = cells st \<and>
   (\<exists>cs. trace (run br ops st) = trace st @ cs \<and> list_all (uses_flag (cells st)) cs)"
proof (induction ops arbitrary: st)
  case Nil
  show ?case by simp
next
  case (Cons x xs)
  from well_behaved_step[of br st x] obtain cs1 where
    c1: "cells (snd (step br x st)) = cells st" and
    t1: "trace (snd (step br x st)) = trace st @ cs1" and
    p1: "list_all (uses_flag (cells st)) cs1"
    unfolding well_behaved_def by blast
  from Cons.IH[of "snd (step br x st)"] obtain cs2 where
    c2: "cells (run br xs (snd (step br x st))) = cells (snd (step br x st))" and
    t2: "trace (run br xs (snd (step br x st))) = trace (snd (step br x st)) @ cs2" and
    p2: "list_all (uses_flag (cells (snd (step br x st)))) cs2"
    by blast
  from c1 c2 t1 t2 p1 p2 show ?case by auto
qed

subsection \<open>Save and insert, call by call\<close>

lemma swap_call_twice: "swap_call (swap_call c) = c"
  by (cases c) simp_all

lemma swap_call_comp: "swap_call \<circ> swap_call = id"
  by (rule ext) (simp add: swap_call_twice)

lemma save_unfold:
  "saveToMapRDB br df tn ifp ct bi st =
     (let S = JSetBufferWrites (mapr_j_session (cells st)) (buffer_writes (cells st));
          W = JSaveToMapRDB (mapr_j_session (cells st)) (jdf df) tn
                (case ifp of None \<Rightarrow> default_id_field (cells st) | Some p \<Rightarrow> p)
                (case ct of None \<Rightarrow> False | Some b \<Rightarrow> b)
                (case bi of None \<Rightarrow> False | Some b \<Rightarrow> b)
      in case respond br (trace st) S of
           Inl e \<Rightarrow> (Inl e, st\<lparr>trace := trace st @ [S]\<rparr>)
         | Inr x \<Rightarrow>
            (case respond br (trace st @ [S]) W of
               Inl e \<Rightarrow> (Inl e, st\<lparr>trace := trace st @ [S, W]\<rparr>)
             | Inr r \<Rightarrow>
                (case respond br (trace st @ [S, W]) (NewDataFrame r (wrapped (cells st))) of
                   Inl e \<Rightarrow> (Inl e, st\<lparr>trace := trace st @ [S, W, NewDataFrame r (wrapped (cells st))]\<rparr>)
                 | Inr y \<Rightarrow> (Inr PyNone, st\<lparr>trace := trace st @ [S, W, NewDataFrame r (wrapped (cells st))]\<rparr>))))"
  by (simp add: run_defs split: sum.splits)

lemma insert_unfold:
  "insertToMapRDB br df tn ifp ct bi st =
     (let S = JSetBufferWrites (mapr_j_session (cells st)) (buffer_writes (cells st));
          W = JInsertToMapRDB (mapr_j_session (cells st)) (jdf df) tn
                (case ifp of None \<Rightarrow> default_id_field (cells st) | Some p \<Rightarrow> p)
                (case ct of None \<Rightarrow> False | Some b \<Rightarrow> b)
                (case bi of None \<Rightarrow> False | Some b \<Rightarrow> b)
      in case respond br (trace st) S of
           Inl e \<Rightarrow> (Inl e, st\<lparr>trace := trace st @ [S]\<rparr>)
         | Inr x \<Rightarrow>
            (case respond br (trace st @ [S]) W of
               Inl e \<Rightarrow> (Inl e, st\<lparr>trace := trace st @ [S, W]\<rparr>)
             | Inr r \<Rightarrow>
                (case respond br (trace st @ [S, W]) (NewDataFrame r (wrapped (cells st))) of
                   Inl e \<Rightarrow> (Inl e, st\<lparr>trace := trace st @ [S, W, NewDataFrame r (wrapped (cells st))]\<rparr>)
                 | Inr y \<Rightarrow> (Inr PyNone, st\<lparr>trace := trace st @ [S, W, NewDataFrame r (wrapped (cells st))]\<rparr>))))"
  by (simp add: run_defs split: sum.splits)

lemma swap_state_simps:
  "cells (swap_state st) = cells st"
  "trace (swap_state st) = map swap_call (trace st)"
  "swap_state (st\<lparr>trace := t\<rparr>) = st\<lparr>trace := map swap_call t\<rparr>"
  "(swap_state st)\<lparr>trace := t\<rparr> = st\<lparr>trace := t\<rparr>"
  by (simp_all add: swap_state_def)

lemma respond_swap_bridge:
  "respond (swap_bridge br) t c = respond br (map swap_call t) (swap_call c)"
  by (simp add: swap_bridge_def)

subsection \<open>The demo session after construction\<close>

lemma demo_patched_eq:
  "demo_patched =
     demo_session\<lparr>attrs :=
        [''version'' \<mapsto> Other 5,
         ''loadFromMapRDB'' \<mapsto> Function LoadFromMapRDB demo_scope,
         ''saveToMapRDB'' \<mapsto> Function SaveToMapRDB demo_scope,
         ''insertToMapRDB'' \<mapsto> Function InsertToMapRDB demo_scope]\<rparr>"
  by (simp add: demo_patched_def mapr_session_patch_def setattr_def demo_defs Let_def)

section \<open>The claims\<close>

text \<open>
  C1 (as amended). When \<open>loadFromMapRDB\<close> returns, it has asked the session for a reader,
  chosen the format \<open>com.mapr.db.spark.sql\<close>, and set exactly three options, in this order:
  \<open>tableName\<close> to the table name, \<open>sampleSize\<close> to the argument when one was given (500,
  say) and to the captured default otherwise, and \<open>bufferWrites\<close> to the captured
  write-buffering flag, each call on the object the call before returned. It has then
  applied the schema to the configured reader when a schema was given and Python takes it
  as true, and has returned what \<open>load()\<close> on the configured reader returned.
\<close>

theorem loadFromMapRDB_reader:
  assumes "loadFromMapRDB br table_name schema sample_size st = (Inr res, st')"
  shows "\<exists>r0 r1 r2 r3 df_reader df cs.
     cs = [SessionRead (original_session (cells st)),
           ReaderFormat r0 ''com.mapr.db.spark.sql'',
           ReaderOption r1 ''tableName'' (OptStr table_name),
           ReaderOption r2 ''sampleSize''
             (OptNum (case sample_size of None \<Rightarrow> default_sample_size (cells st) | Some k \<Rightarrow> k)),
           ReaderOption r3 ''bufferWrites'' (OptBool (buffer_writes (cells st)))]
          @ (case schema of None \<Rightarrow> []
             | Some s \<Rightarrow> if truthy br s then [ReaderSchema df_reader s] else [])
     \<and> trace st' = trace st @ cs @ [ReaderLoad df_reader]
     \<and> respond br (trace st) (cs ! 0) = Inr r0
     \<and> respond br (trace st @ take 1 cs) (cs ! 1) = Inr r1
     \<and> respond br (trace st @ take 2 cs) (cs ! 2) = Inr r2
     \<and> respond br (trace st @ take 3 cs) (cs ! 3) = Inr r3
     \<and> respond br (trace st @ take 4 cs) (cs ! 4) = Inr df_reader
     \<and> respond br (trace st @ cs) (ReaderLoad df_reader) = Inr df
     \<and> res = PyObj df
     \<and> cells st' = cells st"
proof (cases schema)
  case None
  with assms show ?thesis
    unfolding loadFromMapRDB_def and_then_def invoke_def return_def Let_def
    by (auto split: sum.splits option.splits prod.splits)
next
  case (Some s)
  show ?thesis
  proof (cases "truthy br s")
    case True
    with Some assms show ?thesis
      unfolding loadFromMapRDB_def and_then_def invoke_def return_def Let_def
      by (auto split: sum.splits option.splits prod.splits)
  next
    case False
    with Some assms show ?thesis
      unfolding loadFromMapRDB_def and_then_def invoke_def return_def Let_def
      by (auto split: sum.splits option.splits prod.splits)
  qed
qed

text \<open>A load with sample size 500 and a schema that is not empty.\<close>

theorem loadFromMapRDB_reader_witness:
  "loadFromMapRDB echo_bridge ''/t'' (Some (DDLString ''a INT'')) (Some (PyInt 500)) demo_state =
     (Inr (PyObj 18),
      demo_state\<lparr>trace := trace demo_state @
        [SessionRead 1,
         ReaderFormat 12 ''com.mapr.db.spark.sql'',
         ReaderOption 13 ''tableName'' (OptStr ''/t''),
         ReaderOption 14 ''sampleSize'' (OptNum (PyInt 500)),
         ReaderOption 15 ''bufferWrites'' (OptBool True),
         ReaderSchema 16 (DDLString ''a INT''),
         ReaderLoad 16]\<rparr>) \<and>
   respond echo_bridge
     (trace demo_state @
        [SessionRead 1,
         ReaderFormat 12 ''com.mapr.db.spark.sql'',
         ReaderOption 13 ''tableName'' (OptStr ''/t''),
         ReaderOption 14 ''sampleSize'' (OptNum (PyInt 500)),
         ReaderOption 15 ''bufferWrites'' (OptBool True),
         ReaderSchema 16 (DDLString ''a INT'')])
     (ReaderLoad 16) = Inr 18"
proof -
  have h: "loadFromMapRDB echo_bridge ''/t'' (Some (DDLString ''a INT'')) (Some (PyInt 500)) demo_state =
     (Inr (PyObj 18),
      demo_state\<lparr>trace := trace demo_state @
        [SessionRead 1,
         ReaderFormat 12 ''com.mapr.db.spark.sql'',
         ReaderOption 13 ''tableName'' (OptStr ''/t''),
         ReaderOption 14 ''sampleSize'' (OptNum (PyInt 500)),
         ReaderOption 15 ''bufferWrites'' (OptBool True),
         ReaderSchema 16 (DDLString ''a INT''),
         ReaderLoad 16]\<rparr>)"
    by (simp add: run_defs demo_defs)
  from loadFromMapRDB_reader[OF h] h show ?thesis
    by (simp add: demo_defs)
qed

text \<open>
  C1 as written says that the schema is applied whenever one was supplied. The test in
  the source is \<open>if schema:\<close>, so a supplied schema that Python takes as false is skipped:
  with the empty DDL string the load goes through and no \<open>schema\<close> call is made.
\<close>

theorem loadFromMapRDB_empty_schema_counterexample:
  "loadFromMapRDB echo_bridge ''/t'' (Some (DDLString '''')) None demo_state =
     (Inr (PyObj 17),
      demo_state\<lparr>trace := trace demo_state @
        [SessionRead 1,
         ReaderFormat 12 ''com.mapr.db.spark.sql'',
         ReaderOption 13 ''tableName'' (OptStr ''/t''),
         ReaderOption 14 ''sampleSize'' (OptNum (PyFloat 1000)),
         ReaderOption 15 ''bufferWrites'' (OptBool True),
         ReaderLoad 16]\<rparr>)"
  by (simp add: run_defs demo_defs)

text \<open>
  C2. In an adapter built by \<open>mapr_session_patch\<close>, once the buffering setter has returned,
  save and insert make the native write call with the data frame's \<open>_jdf\<close>, the table name,
  the identifier field path given by the caller, or else the adapter's default (itself
  \<open>_id\<close> when the constructor was given none), and the create-table and bulk-insert flags,
  each \<open>False\<close> when left out.
\<close>

theorem write_resolves_arguments:
  assumes "cells st = new_scope os w dss dif bw j"
    and "respond br (trace st) (JSetBufferWrites j (buffer_writes (cells st))) = Inr x"
  shows "take 2 (new_calls st (snd (saveToMapRDB br df tn ifp ct bi st))) =
           [JSetBufferWrites j (buffer_writes (cells st)),
            JSaveToMapRDB j (jdf df) tn
              (case ifp of None \<Rightarrow> (case dif of None \<Rightarrow> ''_id'' | Some f \<Rightarrow> f) | Some p \<Rightarrow> p)
              (case ct of None \<Rightarrow> False | Some b \<Rightarrow> b)
              (case bi of None \<Rightarrow> False | Some b \<Rightarrow> b)] \<and>
         take 2 (new_calls st (snd (insertToMapRDB br df tn ifp ct bi st))) =
           [JSetBufferWrites j (buffer_writes (cells st)),
            JInsertToMapRDB j (jdf df) tn
              (case ifp of None \<Rightarrow> (case dif of None \<Rightarrow> ''_id'' | Some f \<Rightarrow> f) | Some p \<Rightarrow> p)
              (case ct of None \<Rightarrow> False | Some b \<Rightarrow> b)
              (case bi of None \<Rightarrow> False | Some b \<Rightarrow> b)]"
proof -
  from assms(1) have d: "default_id_field (cells st) = (case dif of None \<Rightarrow> ''_id'' | Some f \<Rightarrow> f)"
    and m: "mapr_j_session (cells st) = j"
    by (simp_all add: new_scope_def)
  from assms(2) m show ?thesis
    unfolding save_unfold insert_unfold Let_def new_calls_def
    by (cases ifp) (simp_all add: d split: sum.splits)
qed

text \<open>A save with every optional argument left out, and an insert with \<open>custom_id\<close>.\<close>

theorem write_resolves_arguments_witness:
  "cells demo_state = new_scope demo_session 3 None None None 11 \<and>
   respond echo_bridge (trace demo_state) (JSetBufferWrites 11 (buffer_writes (cells demo_state)))
     = Inr 12 \<and>
   take 2 (new_calls demo_state
             (snd (saveToMapRDB echo_bridge demo_df ''/t'' None None None demo_state))) =
     [JSetBufferWrites 11 True, JSaveToMapRDB 11 7 ''/t'' ''_id'' False False] \<and>
   take 2 (new_calls demo_state
             (snd (insertToMapRDB echo_bridge demo_df ''/t'' (Some ''custom_id'') None (Some True)
                     demo_state))) =
     [JSetBufferWrites 11 True, JInsertToMapRDB 11 7 ''/t'' ''custom_id'' False True]"
proof -
  have c: "cells demo_state = new_scope demo_session 3 None None None 11"
    by (simp add: demo_defs)
  have r: "respond echo_bridge (trace demo_state)
             (JSetBufferWrites 11 (buffer_writes (cells demo_state))) = Inr 12"
    by (simp add: demo_defs)
  from write_resolves_arguments[OF c r, of demo_df "''/t''" None None None]
       write_resolves_arguments[OF c r, of demo_df "''/t''" "Some ''custom_id''" None "Some True"]
       c r
  show ?thesis by (simp add: demo_defs)
qed

text \<open>
  C3. The calls made by a save, and by an insert, in full: the buffering setter with the
  captured flag always comes first; the native write is made only after the setter has
  returned, and the data frame wrapper only after the write has returned.
\<close>

theorem buffering_pushed_before_write:
  "new_calls st (snd (saveToMapRDB br df tn ifp ct bi st)) =
     (let S = JSetBufferWrites (mapr_j_session (cells st)) (buffer_writes (cells st));
          W = JSaveToMapRDB (mapr_j_session (cells st)) (jdf df) tn
                (case ifp of None \<Rightarrow> default_id_field (cells st) | Some p \<Rightarrow> p)
                (case ct of None \<Rightarrow> False | Some b \<Rightarrow> b)
                (case bi of None \<Rightarrow> False | Some b \<Rightarrow> b)
      in case respond br (trace st) S of
           Inl e \<Rightarrow> [S]
         | Inr x \<Rightarrow> (case respond br (trace st @ [S]) W of
                      Inl e \<Rightarrow> [S, W]
                    | Inr r \<Rightarrow> [S, W, NewDataFrame r (wrapped (cells st))])) \<and>
   new_calls st (snd (insertToMapRDB br df tn ifp ct bi st)) =
     (let S = JSetBufferWrites (mapr_j_session (cells st)) (buffer_writes (cells st));
          W = JInsertToMapRDB (mapr_j_session (cells st)) (jdf df) tn
                (case ifp of None \<Rightarrow> default_id_field (cells st) | Some p \<Rightarrow> p)
                (case ct of None \<Rightarrow> False | Some b \<Rightarrow> b)
                (case bi of None \<Rightarrow> False | Some b \<Rightarrow> b)
      in case respond br (trace st) S of
           Inl e \<Rightarrow> [S]
         | Inr x \<Rightarrow> (case respond br (trace st @ [S]) W of
                      Inl e \<Rightarrow> [S, W]
                    | Inr r \<Rightarrow> [S, W, NewDataFrame r (wrapped (cells st))]))"
  by (simp add: run_defs split: sum.splits)

text \<open>With a connector that rejects the write, the setter has still been called first.\<close>

theorem buffering_pushed_before_write_witness:
  "new_calls demo_state
     (snd (saveToMapRDB refusing_bridge demo_df ''/t'' None None None demo_state)) =
     [JSetBufferWrites 11 True, JSaveToMapRDB 11 7 ''/t'' ''_id'' False False] \<and>
   new_calls demo_state
     (snd (insertToMapRDB refusing_bridge demo_df ''/t'' None None None demo_state)) =
     [JSetBufferWrites 11 True, JInsertToMapRDB 11 7 ''/t'' ''_id'' False False]"
  using buffering_pushed_before_write[of demo_state refusing_bridge demo_df "''/t''" None None None]
  by (simp add: demo_defs)

text \<open>
  C4. The claim is that a call of the setter with \<open>b\<close> makes the next save or insert push
  \<open>b\<close>. The code does not do that: in an adapter built with the default flag \<open>True\<close>,
  \<open>set_buffer_writes(False)\<close> followed by a save pushes \<open>True\<close>; and construction leaves no
  attribute \<open>set_buffer_writes\<close> on the session.
\<close>

theorem set_buffer_writes_ignored:
  "buffering_values (new_calls demo_state
      (run echo_bridge [OpSetBufferWrites False, OpSave demo_df ''/t'' None None None] demo_state))
     = [OptBool True] \<and>
   attrs (fst (snd (mapr_session_patch echo_bridge demo_session 3 4 None None None [])))
     ''set_buffer_writes'' = None"
  by (simp add: run_defs demo_defs mapr_session_patch_def setattr_def)

text \<open>
  C5. A save or an insert that returns normally returns \<open>None\<close>; the last thing it did was
  to build the data frame wrapper around what the native write returned, and that wrapper
  is not handed back.
\<close>

theorem write_returns_none:
  "(fst (saveToMapRDB br df tn ifp ct bi st) = Inr v \<longrightarrow>
      v = PyNone \<and>
      (\<exists>r. respond br
              (trace st @ [JSetBufferWrites (mapr_j_session (cells st)) (buffer_writes (cells st))])
              (JSaveToMapRDB (mapr_j_session (cells st)) (jdf df) tn
                (case ifp of None \<Rightarrow> default_id_field (cells st) | Some p \<Rightarrow> p)
                (case ct of None \<Rightarrow> False | Some b \<Rightarrow> b)
                (case bi of None \<Rightarrow> False | Some b \<Rightarrow> b)) = Inr r \<and>
           last (trace (snd (saveToMapRDB br df tn ifp ct bi st)))
              = NewDataFrame r (wrapped (cells st)))) \<and>
   (fst (insertToMapRDB br df tn ifp ct bi st) = Inr v' \<longrightarrow>
      v' = PyNone \<and>
      (\<exists>r. respond br
              (trace st @ [JSetBufferWrites (mapr_j_session (cells st)) (buffer_writes (cells st))])
              (JInsertToMapRDB (mapr_j_session (cells st)) (jdf df) tn
                (case ifp of None \<Rightarrow> default_id_field (cells st) | Some p \<Rightarrow> p)
                (case ct of None \<Rightarrow> False | Some b \<Rightarrow> b)
                (case bi of None \<Rightarrow> False | Some b \<Rightarrow> b)) = Inr r \<and>
           last (trace (snd (insertToMapRDB br df tn ifp ct bi st)))
              = NewDataFrame r (wrapped (cells st))))"
  unfolding save_unfold insert_unfold Let_def
  by (simp split: sum.splits)

text \<open>A save and an insert that go through.\<close>

theorem write_returns_none_witness:
  "fst (saveToMapRDB echo_bridge demo_df ''/t'' None None None demo_state) = Inr PyNone \<and>
   last (trace (snd (saveToMapRDB echo_bridge demo_df ''/t'' None None None demo_state)))
     = NewDataFrame 13 3 \<and>
   fst (insertToMapRDB echo_bridge demo_df ''/t'' None None None demo_state) = Inr PyNone \<and>
   last (trace (snd (insertToMapRDB echo_bridge demo_df ''/t'' None None None demo_state)))
     = NewDataFrame 13 3"
proof -
  have s: "fst (saveToMapRDB echo_bridge demo_df ''/t'' None None None demo_state) = Inr PyNone"
    by (simp add: run_defs demo_defs)
  have i: "fst (insertToMapRDB echo_bridge demo_df ''/t'' None None None demo_state) = Inr PyNone"
    by (simp add: run_defs demo_defs)
  from write_returns_none[of echo_bridge demo_df "''/t''" None None None demo_state PyNone PyNone]
       s i
  show ?thesis by (simp add: run_defs demo_defs)
qed

text \<open>
  C6. After a construction that completes, the session's attributes \<open>loadFromMapRDB\<close>,
  \<open>saveToMapRDB\<close> and \<open>insertToMapRDB\<close> are the three inner functions of this activation;
  the attribute names are the old ones and these three, and every other attribute, the
  session's identity and its \<open>_jsparkSession\<close> are as before.
\<close>

theorem patch_attaches_three:
  assumes "mapr_session_patch br os w gw dss dif bw t = (Inr r, os', t')"
  shows "\<exists>j. respond br (t @ [JavaImport gw connector_class])
               (NewMapRDBJavaSession gw (jsparkSession os)) = Inr j \<and>
     attrs os' ''loadFromMapRDB'' = Some (Function LoadFromMapRDB (new_scope os w dss dif bw j)) \<and>
     attrs os' ''saveToMapRDB'' = Some (Function SaveToMapRDB (new_scope os w dss dif bw j)) \<and>
     attrs os' ''insertToMapRDB'' = Some (Function InsertToMapRDB (new_scope os w dss dif bw j)) \<and>
     dom (attrs os') = dom (attrs os) \<union> {''loadFromMapRDB'', ''saveToMapRDB'', ''insertToMapRDB''} \<and>
     (\<forall>n. n \<notin> {''loadFromMapRDB'', ''saveToMapRDB'', ''insertToMapRDB''}
          \<longrightarrow> attrs os' n = attrs os n) \<and>
     session_ref os' = session_ref os \<and> jsparkSession os' = jsparkSession os"
  using assms
  by (auto simp add: mapr_session_patch_def setattr_def Let_def split: sum.splits)

text \<open>Construction on the demo session, which has one attribute of its own.\<close>

theorem patch_attaches_three_witness:
  "mapr_session_patch echo_bridge demo_session 3 4 None None None [] =
     (Inr PyNone,
      demo_session\<lparr>attrs :=
        [''version'' \<mapsto> Other 5,
         ''loadFromMapRDB'' \<mapsto> Function LoadFromMapRDB demo_scope,
         ''saveToMapRDB'' \<mapsto> Function SaveToMapRDB demo_scope,
         ''insertToMapRDB'' \<mapsto> Function InsertToMapRDB demo_scope]\<rparr>,
      [JavaImport 4 connector_class, NewMapRDBJavaSession 4 2]) \<and>
   dom (attrs (fst (snd (mapr_session_patch echo_bridge demo_session 3 4 None None None [])))) =
     {''version'', ''loadFromMapRDB'', ''saveToMapRDB'', ''insertToMapRDB''} \<and>
   attrs (fst (snd (mapr_session_patch echo_bridge demo_session 3 4 None None None [])))
     ''version'' = Some (Other 5)"
proof -
  have h: "mapr_session_patch echo_bridge demo_session 3 4 None None None [] =
     (Inr PyNone,
      demo_session\<lparr>attrs :=
        [''version'' \<mapsto> Other 5,
         ''loadFromMapRDB'' \<mapsto> Function LoadFromMapRDB demo_scope,
         ''saveToMapRDB'' \<mapsto> Function SaveToMapRDB demo_scope,
         ''insertToMapRDB'' \<mapsto> Function InsertToMapRDB demo_scope]\<rparr>,
      [JavaImport 4 connector_class, NewMapRDBJavaSession 4 2])"
    by (simp add: mapr_session_patch_def setattr_def demo_defs Let_def)
  from patch_attaches_three[OF h] h show ?thesis
    by (auto simp add: demo_session_def)
qed

text \<open>
  C7. For each of the four operations (load, save, insert, construction): the history is
  only extended; a call that raises is the last call the operation makes and the
  operation's outcome is that very exception; when no call raises, the outcome is a normal
  return.
\<close>

theorem errors_pass_through:
  "propagates br (trace st) (new_calls st (snd (loadFromMapRDB br tn s n st)))
      (fst (loadFromMapRDB br tn s n st)) \<and>
   take (length (trace st)) (trace (snd (loadFromMapRDB br tn s n st))) = trace st \<and>
   propagates br (trace st) (new_calls st (snd (saveToMapRDB br d tn i c b st)))
      (fst (saveToMapRDB br d tn i c b st)) \<and>
   take (length (trace st)) (trace (snd (saveToMapRDB br d tn i c b st))) = trace st \<and>
   propagates br (trace st) (new_calls st (snd (insertToMapRDB br d tn i c b st)))
      (fst (insertToMapRDB br d tn i c b st)) \<and>
   take (length (trace st)) (trace (snd (insertToMapRDB br d tn i c b st))) = trace st \<and>
   propagates br t (drop (length t) (snd (snd (mapr_session_patch br os w gw dss dif bw t))))
      (fst (mapr_session_patch br os w gw dss dif bw t)) \<and>
   take (length t) (snd (snd (mapr_session_patch br os w gw dss dif bw t))) = t"
proof -
  have wb: "propagates br (trace st) (new_calls st (snd out)) (fst out) \<and>
            take (length (trace st)) (trace (snd out)) = trace st"
    if "well_behaved br uses_flag st out" for out :: "('a + 'c) \<times> 'b state"
    using that unfolding well_behaved_def new_calls_def by auto
  have p: "propagates br t (drop (length t) (snd (snd (mapr_session_patch br os w gw dss dif bw t))))
      (fst (mapr_session_patch br os w gw dss dif bw t)) \<and>
   take (length t) (snd (snd (mapr_session_patch br os w gw dss dif bw t))) = t"
    by (simp add: mapr_session_patch_def Let_def split: sum.splits)
  from wb[OF well_behaved_load] wb[OF well_behaved_save] wb[OF well_behaved_insert] p
  show ?thesis by blast
qed

text \<open>The connector rejects the write: the save ends with that exception, after two calls.\<close>

theorem errors_pass_through_witness:
  "fst (saveToMapRDB refusing_bridge demo_df ''/t'' None None None demo_state)
     = Inl ''write failed'' \<and>
   propagates refusing_bridge (trace demo_state)
     (new_calls demo_state
        (snd (saveToMapRDB refusing_bridge demo_df ''/t'' None None None demo_state)))
     (fst (saveToMapRDB refusing_bridge demo_df ''/t'' None None None demo_state)) \<and>
   new_calls demo_state
     (snd (saveToMapRDB refusing_bridge demo_df ''/t'' None None None demo_state)) =
     [JSetBufferWrites 11 True, JSaveToMapRDB 11 7 ''/t'' ''_id'' False False]"
  using errors_pass_through[of refusing_bridge demo_state "''/t''" None None demo_df
          None None None "[]" demo_session 3 4 None None None]
  by (simp add: run_defs demo_defs)

text \<open>
  C8. Construction on a session whose three attributes are already set (to anything, for
  instance by an earlier construction) completes whenever its two outside calls return,
  makes no other call, and sets the three attributes to the inner functions of the new
  activation; what they held before plays no part.
\<close>

theorem patch_overwrites:
  assumes "attrs os ''loadFromMapRDB'' = Some a1"
    and "attrs os ''saveToMapRDB'' = Some a2"
    and "attrs os ''insertToMapRDB'' = Some a3"
    and "respond br t (JavaImport gw connector_class) = Inr x"
    and "respond br (t @ [JavaImport gw connector_class])
           (NewMapRDBJavaSession gw (jsparkSession os)) = Inr j"
  shows "mapr_session_patch br os w gw dss dif bw t =
           (Inr PyNone,
            os\<lparr>attrs := (attrs os)
              (''loadFromMapRDB'' \<mapsto> Function LoadFromMapRDB (new_scope os w dss dif bw j),
               ''saveToMapRDB'' \<mapsto> Function SaveToMapRDB (new_scope os w dss dif bw j),
               ''insertToMapRDB'' \<mapsto> Function InsertToMapRDB (new_scope os w dss dif bw j))\<rparr>,
            t @ [JavaImport gw connector_class, NewMapRDBJavaSession gw (jsparkSession os)])"
  using assms
  by (simp add: mapr_session_patch_def setattr_def Let_def)

text \<open>A second construction on the demo session, now with \<open>buffer_writes=False\<close>.\<close>

theorem patch_overwrites_witness:
  "attrs demo_patched ''saveToMapRDB'' = Some (Function SaveToMapRDB demo_scope) \<and>
   mapr_session_patch echo_bridge demo_patched 3 4 None None (Some False) (trace demo_state) =
     (Inr PyNone,
      demo_patched\<lparr>attrs := (attrs demo_patched)
        (''loadFromMapRDB'' \<mapsto>
            Function LoadFromMapRDB (demo_scope\<lparr>buffer_writes := False, mapr_j_session := 13\<rparr>),
         ''saveToMapRDB'' \<mapsto>
            Function SaveToMapRDB (demo_scope\<lparr>buffer_writes := False, mapr_j_session := 13\<rparr>),
         ''insertToMapRDB'' \<mapsto>
            Function InsertToMapRDB (demo_scope\<lparr>buffer_writes := False, mapr_j_session := 13\<rparr>))\<rparr>,
      trace demo_state @ [JavaImport 4 connector_class, NewMapRDBJavaSession 4 2])"
proof -
  have a1: "attrs demo_patched ''loadFromMapRDB'' = Some (Function LoadFromMapRDB demo_scope)"
    and a2: "attrs demo_patched ''saveToMapRDB'' = Some (Function SaveToMapRDB demo_scope)"
    and a3: "attrs demo_patched ''insertToMapRDB'' = Some (Function InsertToMapRDB demo_scope)"
    by (simp_all add: demo_patched_eq)
  have r1: "respond echo_bridge (trace demo_state) (JavaImport 4 connector_class) = Inr 12"
    by (simp add: demo_defs)
  have r2: "respond echo_bridge (trace demo_state @ [JavaImport 4 connector_class])
              (NewMapRDBJavaSession 4 (jsparkSession demo_patched)) = Inr 13"
    by (simp add: demo_defs)
  have n: "new_scope demo_patched 3 None None (Some False) 13 =
             demo_scope\<lparr>buffer_writes := False, mapr_j_session := 13\<rparr>"
    by (simp add: demo_patched_eq demo_defs)
  have j: "jsparkSession demo_patched = 2"
    by (simp add: demo_patched_eq demo_defs)
  from patch_overwrites[OF a1 a2 a3 r1 r2, of 3 None None "Some False"] a2 n j
  show ?thesis by simp
qed

text \<open>
  C9. Insert is save with the native operation exchanged: running insert gives the outcome
  and the history that save gives in the world where the two native write operations are
  exchanged, with that exchange undone.
\<close>

theorem insert_mirrors_save:
  "insertToMapRDB br df tn ifp ct bi st =
     map_prod id swap_state (saveToMapRDB (swap_bridge br) df tn ifp ct bi (swap_state st))"
  unfolding save_unfold insert_unfold Let_def
  by (cases ifp)
     (simp_all add: swap_state_simps respond_swap_bridge swap_call_comp split: sum.splits)

text \<open>On the demo state the two runs differ in the native write call only.\<close>

theorem insert_mirrors_save_witness:
  "insertToMapRDB echo_bridge demo_df ''/t'' None None None demo_state =
     map_prod id swap_state
       (saveToMapRDB (swap_bridge echo_bridge) demo_df ''/t'' None None None
          (swap_state demo_state)) \<and>
   new_calls demo_state
     (snd (insertToMapRDB echo_bridge demo_df ''/t'' None None None demo_state)) =
     map swap_call (new_calls demo_state
       (snd (saveToMapRDB echo_bridge demo_df ''/t'' None None None demo_state)))"
  using insert_mirrors_save[of echo_bridge demo_df "''/t''" None None None demo_state]
  by (simp add: run_defs demo_defs swap_bridge_def swap_state_def)

text \<open>
  C10. Whatever sequence of loads, saves, inserts and calls of \<open>set_buffer_writes\<close> runs on
  an adapter, its captured variables stay as they were, and every write-buffering value
  it hands to the outside (to the native setter, or as the reader option \<open>bufferWrites\<close>) is
  the captured flag. That flag is the constructor's argument, \<open>True\<close> when left out, and
  construction does not touch the session attribute \<open>set_buffer_writes\<close>.
\<close>

theorem buffering_value_fixed:
  "cells (run br ops st) = cells st \<and>
   list_all (\<lambda>x. x = OptBool (buffer_writes (cells st)))
     (buffering_values (new_calls st (run br ops st))) \<and>
   buffer_writes (new_scope os w dss dif bw j) = (case bw of None \<Rightarrow> True | Some b \<Rightarrow> b) \<and>
   attrs (fst (snd (mapr_session_patch br os w gw dss dif bw t))) ''set_buffer_writes''
     = attrs os ''set_buffer_writes''"
proof -
  from run_invariant[of br ops st] obtain cs where
    c: "cells (run br ops st) = cells st" and
    t: "trace (run br ops st) = trace st @ cs" and
    p: "list_all (uses_flag (cells st)) cs" by blast
  from t have n: "new_calls st (run br ops st) = cs" by (simp add: new_calls_def)
  have a: "attrs (fst (snd (mapr_session_patch br os w gw dss dif bw t))) ''set_buffer_writes''
     = attrs os ''set_buffer_writes''"
    by (simp add: mapr_session_patch_def setattr_def Let_def split: sum.splits)
  from c n p a show ?thesis by (simp add: uses_flag_values new_scope_def)
qed

text \<open>Five operations, two of them calls of \<open>set_buffer_writes(False)\<close>.\<close>

theorem buffering_value_fixed_witness:
  "buffering_values (new_calls demo_state
     (run echo_bridge
        [OpSetBufferWrites False, OpSave demo_df ''/t'' None None None, OpLoad ''/t'' None None,
         OpSetBufferWrites False, OpInsert demo_df ''/u'' None None None] demo_state))
     = [OptBool True, OptBool True, OptBool True] \<and>
   cells (run echo_bridge
        [OpSetBufferWrites False, OpSave demo_df ''/t'' None None None, OpLoad ''/t'' None None,
         OpSetBufferWrites False, OpInsert demo_df ''/u'' None None None] demo_state) = demo_scope"
  using buffering_value_fixed[of echo_bridge
        "[OpSetBufferWrites False, OpSave demo_df ''/t'' None None None, OpLoad ''/t'' None None,
          OpSetBufferWrites False, OpInsert demo_df ''/u'' None None None]" demo_state
        demo_session 3 None None None 11 4 "[]"]
  by (simp add: run_defs demo_defs)

end
